theory Spec2Isabelle
  imports Complex_Main
begin

section \<open>boostFile.cc: boosting the MCParticles of an LCIO file\<close>

text \<open>
  The program \<^verbatim>\<open>src/cpp/src/EXAMPLE/boostFile.cc\<close> has three functions:
  \<^verbatim>\<open>getBoosted\<close> (a Lorentz boost held in function-local statics),
  \<^verbatim>\<open>boostFile\<close> (the output name, the event loop and the particle loop) and
  \<^verbatim>\<open>main\<close>. They call three libraries whose code is not part of the sources:
  ROOT's GenVector classes, \<^verbatim>\<open>std::filesystem::path\<close> and LCIO's reader, writer,
  event and particle classes. Each library operation the program calls is written out
  below under the name it has in the library.

  Numbers of C++ type \<^verbatim>\<open>double\<close> are modelled as \<^typ>\<open>real\<close>: the arithmetic
  is exact, there is no rounding, no infinity and no NaN. Statements about rounding error
  are therefore outside this development.
\<close>

subsection \<open>Errors\<close>

datatype error =
  GenVector_exception
  | IOException string

subsection \<open>ROOT::Math::LorentzVector and ROOT::Math::Boost\<close>

text \<open>\<^verbatim>\<open>ROOT::Math::PxPyPzEVector\<close>: the four coordinates of \<^verbatim>\<open>PxPyPzE4D<double>\<close>.\<close>

record LorentzVector =
  Px :: real
  Py :: real
  Pz :: real
  E :: real

definition PxPyPzEVector :: "real \<Rightarrow> real \<Rightarrow> real \<Rightarrow> real \<Rightarrow> LorentzVector" where
  "PxPyPzEVector x y z t = \<lparr>Px = x, Py = y, Pz = z, E = t\<rparr>"

text \<open>\<^verbatim>\<open>LorentzVector::operator+\<close>: the sum, coordinate by coordinate.\<close>

definition lv_plus :: "LorentzVector \<Rightarrow> LorentzVector \<Rightarrow> LorentzVector" where
  "lv_plus a b = PxPyPzEVector (Px a + Px b) (Py a + Py b) (Pz a + Pz b) (E a + E b)"

text \<open>\<^verbatim>\<open>P2()\<close>, the squared 3-momentum, and \<^verbatim>\<open>M2()\<close>, the invariant mass squared.\<close>

definition P2 :: "LorentzVector \<Rightarrow> real" where
  "P2 v = Px v * Px v + Py v * Py v + Pz v * Pz v"

definition M2 :: "LorentzVector \<Rightarrow> real" where
  "M2 v = E v * E v - Px v * Px v - Py v * Py v - Pz v * Pz v"

text \<open>\<^verbatim>\<open>LorentzVector::BetaVector\<close>, a Cartesian 3-vector.\<close>

record BetaVector =
  fX :: real
  fY :: real
  fZ :: real

text \<open>
  \<^verbatim>\<open>LorentzVector::BoostToCM()\<close>: the velocity of the boost that brings the vector to
  its rest frame, \<open>- p / E\<close>. The null vector gives the null velocity; a vector with no
  energy but some momentum, and a vector that is not timelike, are reported through
  \<^verbatim>\<open>GenVector_Throw\<close>.
\<close>

definition BoostToCM :: "LorentzVector \<Rightarrow> error + BetaVector" where
  "BoostToCM v =
     (if E v = 0 then
        (if P2 v = 0 then Inr \<lparr>fX = 0, fY = 0, fZ = 0\<rparr> else Inl GenVector_exception)
      else if M2 v \<le> 0 then Inl GenVector_exception
      else Inr \<lparr>fX = - Px v / E v, fY = - Py v / E v, fZ = - Pz v / E v\<rparr>)"

text \<open>
  \<^verbatim>\<open>ROOT::Math::Boost\<close> keeps the ten entries of the symmetric 4x4 matrix of the boost.
\<close>

record Boost =
  kXX :: real
  kXY :: real
  kXZ :: real
  kXT :: real
  kYY :: real
  kYZ :: real
  kYT :: real
  kZZ :: real
  kZT :: real
  kTT :: real

text \<open>
  The constructor \<^verbatim>\<open>Boost(beta)\<close>, that is \<^verbatim>\<open>SetComponents(bx, by, bz)\<close>: a speed
  of at least the speed of light is reported through \<^verbatim>\<open>GenVector_Throw\<close>.
\<close>

definition Boost_of :: "BetaVector \<Rightarrow> error + Boost" where
  "Boost_of beta =
     (let bx = fX beta; by = fY beta; bz = fZ beta;
          bp2 = bx * bx + by * by + bz * bz
      in if bp2 \<ge> 1 then Inl GenVector_exception
         else
           (let gamma = 1 / sqrt (1 - bp2);
                bgamma = gamma * gamma / (1 + gamma)
            in Inr \<lparr>kXX = 1 + bgamma * bx * bx,
                     kXY = bgamma * bx * by,
                     kXZ = bgamma * bx * bz,
                     kXT = gamma * bx,
                     kYY = 1 + bgamma * by * by,
                     kYZ = bgamma * by * bz,
                     kYT = gamma * by,
                     kZZ = 1 + bgamma * bz * bz,
                     kZT = gamma * bz,
                     kTT = gamma\<rparr>))"

text \<open>\<^verbatim>\<open>Boost::Inverse()\<close>: a copy with the three space-time entries negated.\<close>

definition Inverse :: "Boost \<Rightarrow> Boost" where
  "Inverse b = b\<lparr>kXT := - kXT b, kYT := - kYT b, kZT := - kZT b\<rparr>"

text \<open>\<^verbatim>\<open>Boost::operator()\<close> on a \<^verbatim>\<open>PxPyPzEVector\<close>: the matrix times the vector.\<close>

definition boost_apply :: "Boost \<Rightarrow> LorentzVector \<Rightarrow> LorentzVector" where
  "boost_apply b v =
     (let x = Px v; y = Py v; z = Pz v; t = E v
      in PxPyPzEVector
           (kXX b * x + kXY b * y + kXZ b * z + kXT b * t)
           (kXY b * x + kYY b * y + kYZ b * z + kYT b * t)
           (kXZ b * x + kYZ b * y + kZZ b * z + kZT b * t)
           (kXT b * x + kYT b * y + kZT b * z + kTT b * t))"

subsection \<open>getBoosted and its function-local statics\<close>

text \<open>
  \<^verbatim>\<open>getBoosted\<close> declares four \<^verbatim>\<open>static const\<close> locals. Each one is initialised
  the first time control passes its declaration and keeps its value until the process
  ends; an initialiser that throws leaves its variable uninitialised. The statics are the
  state of the function: \<open>None\<close> is a variable not yet initialised.
\<close>

record boost_statics =
  static_em :: "LorentzVector option"
  static_ep :: "LorentzVector option"
  static_com :: "LorentzVector option"
  static_boost :: "Boost option"

definition statics_init :: boost_statics where
  "statics_init =
     \<lparr>static_em = None, static_ep = None, static_com = None, static_boost = None\<rparr>"

definition getBoosted ::
  "boost_statics \<Rightarrow> LorentzVector \<Rightarrow> (error + LorentzVector) \<times> boost_statics" where
  "getBoosted st lv =
     (let em = (case static_em st of Some v \<Rightarrow> v | None \<Rightarrow> PxPyPzEVector 0 0 500 500);
          ep = (case static_ep st of Some v \<Rightarrow> v | None \<Rightarrow> PxPyPzEVector 0 0 (- 31.3) 31.3);
          com = (case static_com st of Some v \<Rightarrow> v | None \<Rightarrow> lv_plus em ep);
          st' = st\<lparr>static_em := Some em, static_ep := Some ep, static_com := Some com\<rparr>
      in case static_boost st of
           Some boost \<Rightarrow> (Inr (boost_apply boost lv), st')
         | None \<Rightarrow>
             (case BoostToCM com of
                Inl e \<Rightarrow> (Inl e, st')
              | Inr beta \<Rightarrow>
                  (case Boost_of beta of
                     Inl e \<Rightarrow> (Inl e, st')
                   | Inr b \<Rightarrow>
                       (Inr (boost_apply (Inverse b) lv),
                        st'\<lparr>static_boost := Some (Inverse b)\<rparr>))))"

text \<open>The states of the statics that a run of the process can be in.\<close>

inductive reachable :: "boost_statics \<Rightarrow> bool" where
  start: "reachable statics_init"
| call: "reachable st \<Longrightarrow> reachable (snd (getBoosted st lv))"


text \<open>
  The values the statics take: the sum of the two beams, the Lorentz factor of the boost
  and the matrix that \<^verbatim>\<open>boost\<close> holds once it is initialised.
\<close>

definition com_gamma :: real where
  "com_gamma = 1 / sqrt (1 - (4687 / 5313) * (4687 / 5313))"

definition cached_boost :: Boost where
  "cached_boost =
     \<lparr>kXX = 1, kXY = 0, kXZ = 0, kXT = 0, kYY = 1, kYZ = 0, kYT = 0,
      kZZ = 1 + com_gamma * com_gamma / (1 + com_gamma) * (4687 / 5313) * (4687 / 5313),
      kZT = com_gamma * (4687 / 5313),
      kTT = com_gamma\<rparr>"

definition statics_ready :: boost_statics where
  "statics_ready =
     \<lparr>static_em = Some (PxPyPzEVector 0 0 500 500),
      static_ep = Some (PxPyPzEVector 0 0 (- 31.3) 31.3),
      static_com = Some (PxPyPzEVector 0 0 468.7 531.3),
      static_boost = Some cached_boost\<rparr>"

text \<open>
  The construction of the transform as the specification words it (section 4.1,
  \<^verbatim>\<open>computeBoost\<close>): the two four-vectors, their sum, the boost vector to the rest
  frame of the sum, the boost built from it, inverted.
\<close>

definition computeBoost :: "error + Boost" where
  "computeBoost =
     (let A = PxPyPzEVector 0 0 500 500;
          B = PxPyPzEVector 0 0 (- 31.3) 31.3;
          S = lv_plus A B
      in case BoostToCM S of
           Inl e \<Rightarrow> Inl e
         | Inr v \<Rightarrow> (case Boost_of v of Inl e \<Rightarrow> Inl e | Inr T \<Rightarrow> Inr (Inverse T)))"

subsection \<open>std::filesystem::path\<close>

text \<open>
  A path is its pathname, a string in the generic format with \<^verbatim>\<open>/\<close> as the only
  separator (POSIX). \<^verbatim>\<open>filename()\<close> is what follows the last separator and
  \<^verbatim>\<open>remove_filename()\<close> is what is left without it.
\<close>

definition filename :: "string \<Rightarrow> string" where
  "filename p = rev (takeWhile (\<lambda>c. c \<noteq> CHR ''/'') (rev p))"

definition remove_filename :: "string \<Rightarrow> string" where
  "remove_filename p = rev (dropWhile (\<lambda>c. c \<noteq> CHR ''/'') (rev p))"

text \<open>
  \<^verbatim>\<open>stem()\<close> is the filename when it is \<^verbatim>\<open>.\<close> or \<^verbatim>\<open>..\<close> or has no period
  other than a leading one, and the filename up to its last period otherwise;
  \<^verbatim>\<open>extension()\<close> is the rest of the filename.
\<close>

definition stem :: "string \<Rightarrow> string" where
  "stem p =
     (let f = filename p
      in if f = ''.'' \<or> f = ''..'' \<or> CHR ''.'' \<notin> set (tl f) then f
         else rev (tl (dropWhile (\<lambda>c. c \<noteq> CHR ''.'') (rev f))))"

definition extension :: "string \<Rightarrow> string" where
  "extension p =
     (let f = filename p
      in if f = ''.'' \<or> f = ''..'' \<or> CHR ''.'' \<notin> set (tl f) then []
         else CHR ''.'' # rev (takeWhile (\<lambda>c. c \<noteq> CHR ''.'') (rev f)))"

text \<open>
  \<^verbatim>\<open>operator/=\<close>: an absolute right operand replaces the path; otherwise a separator
  is added when the path has a filename, and the operand is appended.
  \<^verbatim>\<open>replace_filename(r)\<close> is \<^verbatim>\<open>remove_filename()\<close> followed by \<^verbatim>\<open>operator/=(r)\<close>.
\<close>

definition is_absolute :: "string \<Rightarrow> bool" where
  "is_absolute p = (case p of [] \<Rightarrow> False | c # _ \<Rightarrow> c = CHR ''/'')"

definition path_append :: "string \<Rightarrow> string \<Rightarrow> string" where
  "path_append p r =
     (if is_absolute r then r
      else if filename p \<noteq> [] then p @ ''/'' @ r
      else p @ r)"

definition replace_filename :: "string \<Rightarrow> string \<Rightarrow> string" where
  "replace_filename p r = path_append (remove_filename p) r"

text \<open>
  Lines 50 to 53 of \<^verbatim>\<open>boostFile\<close>: the name of the output file. The argument of
  \<^verbatim>\<open>replace_filename\<close> is evaluated on \<^verbatim>\<open>inpath\<close> before the call changes it.
\<close>

definition outpath :: "string \<Rightarrow> string" where
  "outpath fname =
     (let inpath = fname
      in replace_filename inpath (stem inpath @ ''-boosted'' @ extension inpath))"

subsection \<open>LCIO: particles, events, reader and writer\<close>

text \<open>
  Modelled from the spec: \<^verbatim>\<open>IMPL::MCParticleImpl\<close> is not part of the sources. Section 3 of
  the specification describes a particle record as a 3-momentum and an energy (which this
  program only reads) next to its identity and relations: the PDG code, the vertex and
  the parent and daughter particles. \<^verbatim>\<open>setMomentum\<close> overwrites the 3-momentum in place.
\<close>

record MCParticle =
  momentum :: "real \<times> real \<times> real"
  energy :: real
  pdg :: int
  vertex :: "real \<times> real \<times> real"
  parents :: "nat list"
  daughters :: "nat list"

definition getMomentum :: "MCParticle \<Rightarrow> nat \<Rightarrow> real" where
  "getMomentum p i =
     (case momentum p of (x, y, z) \<Rightarrow> if i = 0 then x else if i = 1 then y else z)"

definition getEnergy :: "MCParticle \<Rightarrow> real" where
  "getEnergy p = energy p"

definition setMomentum :: "MCParticle \<Rightarrow> real \<times> real \<times> real \<Rightarrow> MCParticle" where
  "setMomentum p m = p\<lparr>momentum := m\<rparr>"

text \<open>
  Modelled from the spec: \<^verbatim>\<open>EVENT::LCEvent\<close> and \<^verbatim>\<open>UTIL::LCIterator\<close> are not part of
  the sources. An event is a container of particle records, the collection named
  \<^verbatim>\<open>MCParticle\<close> that the iterator walks in order, and of other collections that the
  program does not touch.
\<close>

record LCEvent =
  mcparticles :: "MCParticle list"
  other_collections :: "(string \<times> nat list) list"

text \<open>
  The LCIO reader and writer are not part of the sources either, and nothing is assumed
  of them: they are a parameter of the program. Opening a file for reading gives the
  records of the file or fails; a record is an event or a failure to read it. Opening a
  file for writing and writing an event change the store of files or fail.
\<close>

record 's LCIO =
  reader_open :: "'s \<Rightarrow> string \<Rightarrow> error + (error + LCEvent) list"
  writer_open :: "'s \<Rightarrow> string \<Rightarrow> error + 's"
  writer_writeEvent :: "'s \<Rightarrow> string \<Rightarrow> LCEvent \<Rightarrow> error + 's"

text \<open>
  Modelled from the spec: a library over a store that maps a path to the events of the
  file, as sections 4.2 and 6 describe it. Reading needs the file to exist, the output
  must not already exist, and an event is written at the end of the open output.
\<close>

definition lcio_files :: "(string \<Rightarrow> LCEvent list option) LCIO" where
  "lcio_files =
     \<lparr>reader_open = (\<lambda>s f. case s f of None \<Rightarrow> Inl (IOException f) | Some evs \<Rightarrow> Inr (map Inr evs)),
      writer_open = (\<lambda>s f. case s f of None \<Rightarrow> Inr (s(f \<mapsto> [])) | Some _ \<Rightarrow> Inl (IOException f)),
      writer_writeEvent =
        (\<lambda>s f evt. case s f of None \<Rightarrow> Inl (IOException f) | Some evs \<Rightarrow> Inr (s(f \<mapsto> evs @ [evt])))\<rparr>"

subsection \<open>boostFile\<close>

text \<open>
  What the process does to the outside, in order: the lines it prints and the calls it
  makes to the reader and the writer.
\<close>

datatype effect =
  PrintUsage
  | PrintNEvents int
  | PrintWillWrite string
  | PrintEvent int
  | ReaderOpen string
  | WriterOpen string
  | ReadNextEvent
  | WriteEvent string

record 's world =
  statics :: boost_statics
  effects :: "effect list"
  store :: 's

definition emit :: "effect list \<Rightarrow> 's world \<Rightarrow> 's world" where
  "emit es w = w\<lparr>effects := effects w @ es\<rparr>"

text \<open>
  Lines 73 to 92, the MCParticle loop: \<^verbatim>\<open>it.next()\<close> gives the particles of the
  collection one after the other; each has its momentum replaced by the spatial
  components of \<^verbatim>\<open>getBoosted\<close> of its momentum and energy.
\<close>

fun boostParticles ::
  "boost_statics \<Rightarrow> MCParticle list \<Rightarrow> (error + MCParticle list) \<times> boost_statics" where
  "boostParticles st [] = (Inr [], st)"
| "boostParticles st (particle # rest) =
     (let lv = PxPyPzEVector (getMomentum particle 0) (getMomentum particle 1)
                 (getMomentum particle 2) (getEnergy particle)
      in case getBoosted st lv of
           (Inl e, st') \<Rightarrow> (Inl e, st')
         | (Inr boosted, st') \<Rightarrow>
             (let particle' = setMomentum particle (Px boosted, Py boosted, Pz boosted)
              in case boostParticles st' rest of
                   (Inl e, st'') \<Rightarrow> (Inl e, st'')
                 | (Inr rest', st'') \<Rightarrow> (Inr (particle' # rest'), st'')))"

text \<open>Lines 72 to 92: the body of the event loop up to the write, on one event.\<close>

definition boostEvent :: "boost_statics \<Rightarrow> LCEvent \<Rightarrow> (error + LCEvent) \<times> boost_statics" where
  "boostEvent st evt =
     (case boostParticles st (mcparticles evt) of
        (Inl e, st') \<Rightarrow> (Inl e, st')
      | (Inr ps, st') \<Rightarrow> (Inr (evt\<lparr>mcparticles := ps\<rparr>), st'))"

text \<open>
  Lines 66 to 100, the event loop, on the records the reader still has to give.
  \<^verbatim>\<open>nEvtRead\<close> is a C \<^verbatim>\<open>int\<close>; a file is taken to hold fewer than \<open>2^31\<close> events.
\<close>

fun event_loop ::
  "'s LCIO \<Rightarrow> string \<Rightarrow> (error + LCEvent) list \<Rightarrow> int \<Rightarrow> 's world \<Rightarrow> (error + unit) \<times> 's world" where
  "event_loop lib out [] nEvtRead w = (Inr (), emit [ReadNextEvent] w)"
| "event_loop lib out (Inl e # rest) nEvtRead w = (Inl e, emit [ReadNextEvent] w)"
| "event_loop lib out (Inr evt # rest) nEvtRead w =
     (let w1 = emit [ReadNextEvent, PrintEvent nEvtRead] w
      in case boostEvent (statics w1) evt of
           (Inl e, st) \<Rightarrow> (Inl e, w1\<lparr>statics := st\<rparr>)
         | (Inr evt', st) \<Rightarrow>
             (let w2 = emit [WriteEvent out] (w1\<lparr>statics := st\<rparr>)
              in case writer_writeEvent lib (store w2) out evt' of
                   Inl e \<Rightarrow> (Inl e, w2)
                 | Inr s \<Rightarrow> event_loop lib out rest (nEvtRead + 1) (w2\<lparr>store := s\<rparr>)))"

definition boostFile :: "'s LCIO \<Rightarrow> string \<Rightarrow> 's world \<Rightarrow> (error + unit) \<times> 's world" where
  "boostFile lib fname w =
     (let w1 = emit [ReaderOpen fname] w
      in case reader_open lib (store w1) fname of
           Inl e \<Rightarrow> (Inl e, w1)
         | Inr records \<Rightarrow>
             (let w2 = emit [PrintNEvents (int (length records))] w1;
                  out = outpath fname;
                  w3 = emit [PrintWillWrite out, WriterOpen out] w2
              in case writer_open lib (store w3) out of
                   Inl e \<Rightarrow> (Inl e, w3)
                 | Inr s \<Rightarrow> event_loop lib out records 0 (w3\<lparr>store := s\<rparr>)))"

subsection \<open>main\<close>

text \<open>
  The process ends by \<^verbatim>\<open>exit\<close> or \<^verbatim>\<open>return\<close> with a status, or by an exception
  that nothing catches.
\<close>

datatype outcome =
  Exit int
  | Terminate error

text \<open>Lines 116 to 119: \<^verbatim>\<open>boostFile\<close> on the arguments after the program name, in order.\<close>

fun boostFiles :: "'s LCIO \<Rightarrow> string list \<Rightarrow> 's world \<Rightarrow> (error + unit) \<times> 's world" where
  "boostFiles lib [] w = (Inr (), w)"
| "boostFiles lib (fname # fnames) w =
     (case boostFile lib fname w of
        (Inl e, w') \<Rightarrow> (Inl e, w')
      | (Inr _, w') \<Rightarrow> boostFiles lib fnames w')"

text \<open>
  \<^verbatim>\<open>main\<close> on the argument vector (\<^verbatim>\<open>argc\<close> is its length) and the store of files:
  how the process ends, what it did, and the store it leaves.
\<close>

definition main :: "'s LCIO \<Rightarrow> string list \<Rightarrow> 's \<Rightarrow> outcome \<times> effect list \<times> 's" where
  "main lib argv s =
     (let argc = int (length argv)
      in if argc < 2 then (Exit 1, [PrintUsage], s)
         else
           (case boostFiles lib (drop 1 argv) \<lparr>statics = statics_init, effects = [], store = s\<rparr> of
              (Inl e, w) \<Rightarrow> (Terminate e, effects w, store w)
            | (Inr _, w) \<Rightarrow> (Exit 0, effects w, store w)))"

text \<open>The files a run opened for reading and for writing, in order.\<close>

fun opened_inputs :: "effect list \<Rightarrow> string list" where
  "opened_inputs [] = []"
| "opened_inputs (ReaderOpen f # es) = f # opened_inputs es"
| "opened_inputs (_ # es) = opened_inputs es"

fun opened_outputs :: "effect list \<Rightarrow> string list" where
  "opened_outputs [] = []"
| "opened_outputs (WriterOpen f # es) = f # opened_outputs es"
| "opened_outputs (_ # es) = opened_outputs es"

subsection \<open>A run in which the library does not fail\<close>

text \<open>
  The particle and the event that section 4.2 of the specification asks for: the
  3-momentum is replaced by the spatial components of the transform applied to the
  momentum and the energy, and nothing else changes.
\<close>

definition boosted_particle :: "MCParticle \<Rightarrow> MCParticle" where
  "boosted_particle p =
     (case momentum p of
        (x, y, z) \<Rightarrow>
          p\<lparr>momentum :=
              (Px (boost_apply cached_boost (PxPyPzEVector x y z (energy p))),
               Py (boost_apply cached_boost (PxPyPzEVector x y z (energy p))),
               Pz (boost_apply cached_boost (PxPyPzEVector x y z (energy p))))\<rparr>)"

definition boosted_event :: "LCEvent \<Rightarrow> LCEvent" where
  "boosted_event evt = evt\<lparr>mcparticles := map boosted_particle (mcparticles evt)\<rparr>"

text \<open>
  The calls to the library that processing the files asks for, in order and without the
  program around them: every record of the input is read, and its boosted event is
  written to the output. The result is the store of files after the last call, or
  \<open>None\<close> as soon as one call fails. That the library does not fail on the given
  files is that this result is not \<open>None\<close>.
\<close>

fun library_events :: "'s LCIO \<Rightarrow> string \<Rightarrow> (error + LCEvent) list \<Rightarrow> 's \<Rightarrow> 's option" where
  "library_events lib out [] s = Some s"
| "library_events lib out (Inl e # rest) s = None"
| "library_events lib out (Inr evt # rest) s =
     (case writer_writeEvent lib s out (boosted_event evt) of
        Inl e \<Rightarrow> None
      | Inr s' \<Rightarrow> library_events lib out rest s')"

definition library_file :: "'s LCIO \<Rightarrow> string \<Rightarrow> 's \<Rightarrow> 's option" where
  "library_file lib fname s =
     (case reader_open lib s fname of
        Inl e \<Rightarrow> None
      | Inr records \<Rightarrow>
          (case writer_open lib s (outpath fname) of
             Inl e \<Rightarrow> None
           | Inr s' \<Rightarrow> library_events lib (outpath fname) records s'))"

fun library_files :: "'s LCIO \<Rightarrow> string list \<Rightarrow> 's \<Rightarrow> 's option" where
  "library_files lib [] s = Some s"
| "library_files lib (fname # fnames) s =
     (case library_file lib fname s of
        None \<Rightarrow> None
      | Some s' \<Rightarrow> library_files lib fnames s')"

section \<open>Properties of getBoosted\<close>

subsection \<open>The values of the statics\<close>

lemma com_sum:
  "lv_plus (PxPyPzEVector 0 0 500 500) (PxPyPzEVector 0 0 (- 31.3) 31.3) = PxPyPzEVector 0 0 468.7 531.3"
  by (simp add: lv_plus_def PxPyPzEVector_def)

lemma BoostToCM_com:
  "BoostToCM (PxPyPzEVector 0 0 468.7 531.3) = Inr \<lparr>fX = 0, fY = 0, fZ = - (4687 / 5313)\<rparr>"
  by (simp add: BoostToCM_def PxPyPzEVector_def M2_def)

lemma Boost_of_com:
  "Boost_of \<lparr>fX = 0, fY = 0, fZ = - (4687 / 5313)\<rparr> = Inr (Inverse cached_boost)"
  by (simp add: Boost_of_def Inverse_def cached_boost_def com_gamma_def Let_def)

lemma Inverse_Inverse: "Inverse (Inverse b) = b"
  by (simp add: Inverse_def)

lemma getBoosted_init:
  "getBoosted statics_init lv = (Inr (boost_apply cached_boost lv), statics_ready)"
  by (simp add: getBoosted_def statics_init_def statics_ready_def com_sum BoostToCM_com
      Boost_of_com Inverse_Inverse)

lemma getBoosted_ready:
  "getBoosted statics_ready lv = (Inr (boost_apply cached_boost lv), statics_ready)"
  by (simp add: getBoosted_def statics_ready_def)

lemma reachable_cases: "reachable st \<Longrightarrow> st = statics_init \<or> st = statics_ready"
  by (induction rule: reachable.induct) (auto simp: getBoosted_init getBoosted_ready)

lemma getBoosted_reachable:
  "reachable st \<Longrightarrow> getBoosted st lv = (Inr (boost_apply cached_boost lv), statics_ready)"
  using reachable_cases getBoosted_init getBoosted_ready by blast

lemma computeBoost_value: "computeBoost = Inr cached_boost"
  by (simp add: computeBoost_def com_sum BoostToCM_com Boost_of_com Inverse_Inverse)

lemma com_gamma_sqrt: "com_gamma = 5313 / (100 * sqrt 626)"
proof -
  have s: "sqrt (1 - (4687 / 5313) * (4687 / 5313)) = sqrt 626 * 100 / (5313 :: real)"
    by (rule real_sqrt_unique) (simp_all add: power_divide power_mult_distrib)
  show ?thesis
    unfolding com_gamma_def s by simp
qed

lemma com_gamma_pos: "0 < com_gamma"
  by (simp add: com_gamma_sqrt)

lemma com_gamma_sq: "com_gamma * com_gamma = 28227969 / 6260000"
  by (simp add: com_gamma_sqrt)

lemma cached_kZZ: "kZZ cached_boost = com_gamma"
proof -
  have "com_gamma * com_gamma * ((4687 / 5313) * (4687 / 5313)) = (com_gamma - 1) * (1 + com_gamma)"
    by (simp add: algebra_simps com_gamma_sq)
  moreover have "1 + com_gamma \<noteq> 0"
    using com_gamma_pos by simp
  ultimately have "com_gamma * com_gamma / (1 + com_gamma) * (4687 / 5313) * (4687 / 5313) = com_gamma - 1"
    by (simp add: field_simps)
  then show ?thesis
    by (simp add: cached_boost_def)
qed

lemma cached_apply:
  "boost_apply cached_boost v =
     PxPyPzEVector (Px v) (Py v)
       (com_gamma * Pz v + com_gamma * (4687 / 5313) * E v)
       (com_gamma * (4687 / 5313) * Pz v + com_gamma * E v)"
  using cached_kZZ by (simp add: boost_apply_def cached_boost_def Let_def)

lemma cached_M2: "M2 (boost_apply cached_boost v) = M2 v"
proof -
  have "(com_gamma * (4687 / 5313) * Pz v + com_gamma * E v) * (com_gamma * (4687 / 5313) * Pz v + com_gamma * E v)
      - (com_gamma * Pz v + com_gamma * (4687 / 5313) * E v) * (com_gamma * Pz v + com_gamma * (4687 / 5313) * E v)
      = (com_gamma * com_gamma) * (1 - (4687 / 5313) * (4687 / 5313)) * (E v * E v - Pz v * Pz v)"
    by (simp add: algebra_simps)
  also have "\<dots> = E v * E v - Pz v * Pz v"
    by (simp add: com_gamma_sq)
  finally show ?thesis
    by (simp add: cached_apply M2_def PxPyPzEVector_def)
qed


lemma static_boost_ready: "static_boost statics_ready = Some cached_boost"
  by (simp add: statics_ready_def)

lemma statics_ready_reachable: "reachable statics_ready"
  using reachable.call [OF reachable.start, of "PxPyPzEVector 0 0 0 0"]
  by (simp add: getBoosted_init)



text \<open>
  Claim C8. In every state of the statics that the process can reach, \<^verbatim>\<open>getBoosted\<close>
  returns a four-vector whose transverse components are those of its argument:
  \<open>Px\<close> and \<open>Py\<close> are unchanged, since both beams lie along the z axis and the
  cached boost is purely longitudinal.
\<close>

theorem getBoosted_transverse:
  assumes "reachable st"
  shows "\<exists>r. fst (getBoosted st lv) = Inr r \<and> Px r = Px lv \<and> Py r = Py lv"
  using getBoosted_reachable [OF assms] by (simp add: cached_apply PxPyPzEVector_def)

text \<open>The theorem of claim C8 at the first call of the process, on \<open>(3, 4, 12, 13)\<close>.\<close>

theorem getBoosted_transverse_witness:
  "reachable statics_init \<and>
   (\<exists>r. fst (getBoosted statics_init (PxPyPzEVector 3 4 12 13)) = Inr r \<and> Px r = 3 \<and> Py r = 4)"
  using getBoosted_transverse [OF reachable.start, of "PxPyPzEVector 3 4 12 13"] reachable.start
  by (simp add: PxPyPzEVector_def)




text \<open>
  Claim C3. The steps of the specification (the two four-vectors, their sum, the boost
  vector to the rest frame of the sum, the boost built from it, inverted) succeed and give
  a transform \<open>T\<close>; in every reachable state \<^verbatim>\<open>getBoosted\<close> returns \<open>T\<close> applied to
  its argument, and \<open>T\<close> is what the static \<^verbatim>\<open>boost\<close> holds afterwards.
\<close>

theorem getBoosted_computeBoost:
  assumes "reachable st"
  shows "\<exists>T. computeBoost = Inr T
           \<and> fst (getBoosted st lv) = Inr (boost_apply T lv)
           \<and> static_boost (snd (getBoosted st lv)) = Some T"
  using getBoosted_reachable [OF assms]
  by (simp add: computeBoost_value static_boost_ready)

text \<open>The theorem of claim C3 at the first call of the process, on \<open>(0, 0, 100, 100.5)\<close>.\<close>

theorem getBoosted_computeBoost_witness:
  "reachable statics_init \<and>
   (\<exists>T. computeBoost = Inr T
      \<and> fst (getBoosted statics_init (PxPyPzEVector 0 0 100 100.5)) = Inr (boost_apply T (PxPyPzEVector 0 0 100 100.5))
      \<and> static_boost (snd (getBoosted statics_init (PxPyPzEVector 0 0 100 100.5))) = Some T)"
  using getBoosted_computeBoost [OF reachable.start, of "PxPyPzEVector 0 0 100 100.5"] reachable.start
  by simp

text \<open>
  Claim C6. A call that finds a transform in the static \<^verbatim>\<open>boost\<close> applies that very
  transform and leaves it in place: nothing is computed again. In every reachable state
  a call leaves the transform of \<^verbatim>\<open>computeBoost\<close> in the static, whatever its argument,
  a further call changes no static, and a second call on the same four-vector returns the
  same result as the first.
\<close>

theorem getBoosted_cache:
  "(static_boost st = Some b \<longrightarrow>
      fst (getBoosted st lv) = Inr (boost_apply b lv)
    \<and> static_boost (snd (getBoosted st lv)) = Some b)
   \<and> (reachable st \<longrightarrow>
        (\<exists>T. computeBoost = Inr T
           \<and> static_boost (snd (getBoosted st lv)) = Some T
           \<and> static_boost (snd (getBoosted (snd (getBoosted st lv)) lv')) = Some T)
      \<and> snd (getBoosted (snd (getBoosted st lv)) lv') = snd (getBoosted st lv)
      \<and> fst (getBoosted (snd (getBoosted st lv)) lv) = fst (getBoosted st lv))"
proof (intro conjI impI)
  assume "static_boost st = Some b"
  then show "fst (getBoosted st lv) = Inr (boost_apply b lv)"
    and "static_boost (snd (getBoosted st lv)) = Some b"
    by (simp_all add: getBoosted_def Let_def)
next
  assume r: "reachable st"
  show "\<exists>T. computeBoost = Inr T
           \<and> static_boost (snd (getBoosted st lv)) = Some T
           \<and> static_boost (snd (getBoosted (snd (getBoosted st lv)) lv')) = Some T"
    by (simp add: getBoosted_reachable [OF r] getBoosted_ready computeBoost_value
        static_boost_ready)
  show "snd (getBoosted (snd (getBoosted st lv)) lv') = snd (getBoosted st lv)"
    by (simp add: getBoosted_reachable [OF r] getBoosted_ready)
  show "fst (getBoosted (snd (getBoosted st lv)) lv) = fst (getBoosted st lv)"
    by (simp add: getBoosted_reachable [OF r] getBoosted_ready)
qed

text \<open>The theorem of claim C6 in the state after the first call.\<close>

theorem getBoosted_cache_witness:
  "static_boost statics_ready = Some cached_boost \<and> reachable statics_ready
   \<and> fst (getBoosted statics_ready (PxPyPzEVector 1 2 3 4)) = Inr (boost_apply cached_boost (PxPyPzEVector 1 2 3 4))
   \<and> static_boost (snd (getBoosted statics_ready (PxPyPzEVector 1 2 3 4))) = Some cached_boost
   \<and> snd (getBoosted (snd (getBoosted statics_ready (PxPyPzEVector 1 2 3 4))) (PxPyPzEVector 5 6 7 8))
       = snd (getBoosted statics_ready (PxPyPzEVector 1 2 3 4))
   \<and> fst (getBoosted (snd (getBoosted statics_ready (PxPyPzEVector 1 2 3 4))) (PxPyPzEVector 1 2 3 4))
       = fst (getBoosted statics_ready (PxPyPzEVector 1 2 3 4))"
  using getBoosted_cache [of statics_ready cached_boost "PxPyPzEVector 1 2 3 4" "PxPyPzEVector 5 6 7 8"]
    static_boost_ready statics_ready_reachable
  by simp

text \<open>
  In exact arithmetic the boost of \<^verbatim>\<open>getBoosted\<close> preserves the invariant mass squared.
\<close>

lemma getBoosted_M2_exact:
  assumes "reachable st"
  shows "\<exists>r. fst (getBoosted st lv) = Inr r \<and> M2 r = M2 lv"
  using getBoosted_reachable [OF assms] by (simp add: cached_M2)

section \<open>Properties of the output path\<close>

lemma filename_split: "remove_filename p @ filename p = p"
  unfolding remove_filename_def filename_def
  by (metis rev_append rev_rev_ident takeWhile_dropWhile_id)

lemma filename_no_sep: "CHR ''/'' \<notin> set (filename p)"
proof
  assume "CHR ''/'' \<in> set (filename p)"
  then have "CHR ''/'' \<in> set (takeWhile (\<lambda>c. c \<noteq> CHR ''/'') (rev p))"
    by (simp add: filename_def)
  then show False
    by (auto dest: set_takeWhileD)
qed

lemma remove_filename_has_no_filename: "filename (remove_filename p) = []"
proof (cases "dropWhile (\<lambda>c. c \<noteq> CHR ''/'') (rev p)")
  case Nil
  show ?thesis unfolding filename_def remove_filename_def Nil by simp
next
  case (Cons c cs)
  then have "c = CHR ''/''"
    using hd_dropWhile [of "\<lambda>c. c \<noteq> CHR ''/''" "rev p"] by auto
  with Cons show ?thesis by (simp add: filename_def remove_filename_def)
qed

lemma stem_extension: "stem p @ extension p = filename p"
proof -
  let ?f = "filename p"
  let ?P = "\<lambda>c. c \<noteq> CHR ''.''"
  show ?thesis
  proof (cases "?f = ''.'' \<or> ?f = ''..'' \<or> CHR ''.'' \<notin> set (tl ?f)")
    case True
    then show ?thesis by (simp add: stem_def extension_def Let_def)
  next
    case False
    then have "CHR ''.'' \<in> set (rev ?f)"
      by (cases "filename p") auto
    then have "dropWhile ?P (rev ?f) \<noteq> []"
      by (simp add: dropWhile_eq_Nil_conv) 
    moreover have "hd (dropWhile ?P (rev ?f)) = CHR ''.''"
      using hd_dropWhile [OF calculation] by simp
    ultimately have d: "dropWhile ?P (rev ?f) = CHR ''.'' # tl (dropWhile ?P (rev ?f))"
      by (metis list.collapse)
    have "rev (tl (dropWhile ?P (rev ?f))) @ CHR ''.'' # rev (takeWhile ?P (rev ?f))
            = rev (takeWhile ?P (rev ?f) @ CHR ''.'' # tl (dropWhile ?P (rev ?f)))"
      by simp
    also have "\<dots> = rev (takeWhile ?P (rev ?f) @ dropWhile ?P (rev ?f))"
      using d by simp
    also have "\<dots> = ?f"
      by simp
    finally show ?thesis
      using False by (simp add: stem_def extension_def Let_def)
  qed
qed

lemma stem_no_sep: "CHR ''/'' \<notin> set (stem p)"
  using filename_no_sep [of p] stem_extension [of p]
  by (metis Un_iff set_append)

lemma replacement_not_absolute: "\<not> is_absolute (stem p @ ''-boosted'' @ extension p)"
  using stem_no_sep [of p] by (cases "stem p") (auto simp: is_absolute_def)

lemma outpath_eq: "outpath p = remove_filename p @ stem p @ ''-boosted'' @ extension p"
  using replacement_not_absolute [of p]
  by (simp add: outpath_def replace_filename_def path_append_def remove_filename_has_no_filename)

lemma remove_filename_ends_sep:
  "remove_filename p = [] \<or> last (remove_filename p) = CHR ''/''"
proof (cases "dropWhile (\<lambda>c. c \<noteq> CHR ''/'') (rev p)")
  case Nil
  show ?thesis unfolding remove_filename_def Nil by simp
next
  case (Cons c cs)
  then have "c = CHR ''/''"
    using hd_dropWhile [of "\<lambda>c. c \<noteq> CHR ''/''" "rev p"] by auto
  with Cons show ?thesis by (simp add: remove_filename_def)
qed

lemma extension_shape:
  "extension p = [] \<or> (hd (extension p) = CHR ''.'' \<and> CHR ''.'' \<notin> set (tl (extension p)))"
  by (auto simp: extension_def Let_def dest: set_takeWhileD)

lemmas path_defs = outpath_def replace_filename_def path_append_def is_absolute_def
  remove_filename_def stem_def extension_def filename_def

text \<open>
  Claim C5. For every input path with a filename, the output path is the directory part
  of the input (everything up to and including its last separator, kept as it is),
  followed by the stem, the marker \<^verbatim>\<open>-boosted\<close> and the extension. The input is the
  same three parts without the marker, the stem and the extension hold no separator, and
  the extension is empty or starts at the one period it contains: the marker stands just
  before the final extension. \<^verbatim>\<open>/a/b/run01.slcio\<close> gives \<^verbatim>\<open>/a/b/run01-boosted.slcio\<close>
  and \<^verbatim>\<open>run.test.slcio\<close> gives \<^verbatim>\<open>run.test-boosted.slcio\<close>.
\<close>

theorem outpath_boosted:
  assumes "filename p \<noteq> []"
  shows "outpath p = remove_filename p @ stem p @ ''-boosted'' @ extension p
       \<and> p = remove_filename p @ stem p @ extension p
       \<and> (remove_filename p = [] \<or> last (remove_filename p) = CHR ''/'')
       \<and> CHR ''/'' \<notin> set (stem p @ extension p)
       \<and> (extension p = [] \<or> (hd (extension p) = CHR ''.'' \<and> CHR ''.'' \<notin> set (tl (extension p))))
       \<and> outpath ''/a/b/run01.slcio'' = ''/a/b/run01-boosted.slcio''
       \<and> outpath ''run.test.slcio'' = ''run.test-boosted.slcio''"
proof (intro conjI)
  show "outpath p = remove_filename p @ stem p @ ''-boosted'' @ extension p"
    by (rule outpath_eq)
  show "p = remove_filename p @ stem p @ extension p"
    by (simp add: stem_extension filename_split)
  show "remove_filename p = [] \<or> last (remove_filename p) = CHR ''/''"
    by (rule remove_filename_ends_sep)
  show "CHR ''/'' \<notin> set (stem p @ extension p)"
    by (simp only: stem_extension filename_no_sep not_False_eq_True)
  show "extension p = [] \<or> (hd (extension p) = CHR ''.'' \<and> CHR ''.'' \<notin> set (tl (extension p)))"
    by (rule extension_shape)
  show "outpath ''/a/b/run01.slcio'' = ''/a/b/run01-boosted.slcio''"
    by (simp add: path_defs)
  show "outpath ''run.test.slcio'' = ''run.test-boosted.slcio''"
    by (simp add: path_defs)
qed

text \<open>The theorem of claim C5 on \<^verbatim>\<open>/a/b/run01.slcio\<close>, with the three parts of the path.\<close>

theorem outpath_boosted_witness:
  "filename ''/a/b/run01.slcio'' \<noteq> []
   \<and> outpath ''/a/b/run01.slcio'' = ''/a/b/'' @ ''run01'' @ ''-boosted'' @ ''.slcio''
   \<and> remove_filename ''/a/b/run01.slcio'' = ''/a/b/''
   \<and> stem ''/a/b/run01.slcio'' = ''run01''
   \<and> extension ''/a/b/run01.slcio'' = ''.slcio''"
proof -
  have f: "filename ''/a/b/run01.slcio'' \<noteq> []"
    by (simp add: filename_def)
  have d: "remove_filename ''/a/b/run01.slcio'' = ''/a/b/''"
    "stem ''/a/b/run01.slcio'' = ''run01''"
    "extension ''/a/b/run01.slcio'' = ''.slcio''"
    by (simp_all add: path_defs)
  show ?thesis
    using outpath_boosted [OF f] f d by simp
qed

text \<open>
  Claim C9. When the input has no extension, the output path is the input path with the
  marker \<^verbatim>\<open>-boosted\<close> appended: \<^verbatim>\<open>run\<close>, whose stem is \<^verbatim>\<open>run\<close> and whose extension
  is empty, gives \<^verbatim>\<open>run-boosted\<close>.
\<close>

theorem outpath_no_extension:
  "(extension p = [] \<longrightarrow> outpath p = p @ ''-boosted'')
   \<and> extension ''run'' = [] \<and> stem ''run'' = ''run'' \<and> outpath ''run'' = ''run-boosted''"
proof (intro conjI impI)
  assume e: "extension p = []"
  then have "stem p = filename p"
    using stem_extension [of p] by simp
  then show "outpath p = p @ ''-boosted''"
    using e filename_split [of p] by (simp add: outpath_eq)
qed (simp_all add: path_defs)

text \<open>The theorem of claim C9 on \<^verbatim>\<open>data/run\<close>.\<close>

theorem outpath_no_extension_witness:
  "extension ''data/run'' = [] \<and> outpath ''data/run'' = ''data/run-boosted''"
proof -
  have e: "extension ''data/run'' = []"
    by (simp add: path_defs)
  show ?thesis
    using outpath_no_extension [of "''data/run''"] e by simp
qed

section \<open>Properties of the particle loop\<close>

lemma boostParticles_reachable:
  assumes "reachable st"
  shows "boostParticles st ps =
           (Inr (map (\<lambda>p. setMomentum p
                     (Px (boost_apply cached_boost (PxPyPzEVector (getMomentum p 0) (getMomentum p 1) (getMomentum p 2) (getEnergy p))),
                      Py (boost_apply cached_boost (PxPyPzEVector (getMomentum p 0) (getMomentum p 1) (getMomentum p 2) (getEnergy p))),
                      Pz (boost_apply cached_boost (PxPyPzEVector (getMomentum p 0) (getMomentum p 1) (getMomentum p 2) (getEnergy p))))) ps),
            if ps = [] then st else statics_ready)"
  using assms
proof (induction ps arbitrary: st)
  case Nil
  then show ?case by simp
next
  case (Cons p ps)
  have "boostParticles statics_ready ps = (Inr (map (\<lambda>p. setMomentum p
                     (Px (boost_apply cached_boost (PxPyPzEVector (getMomentum p 0) (getMomentum p 1) (getMomentum p 2) (getEnergy p))),
                      Py (boost_apply cached_boost (PxPyPzEVector (getMomentum p 0) (getMomentum p 1) (getMomentum p 2) (getEnergy p))),
                      Pz (boost_apply cached_boost (PxPyPzEVector (getMomentum p 0) (getMomentum p 1) (getMomentum p 2) (getEnergy p))))) ps), statics_ready)"
    using Cons.IH [OF statics_ready_reachable] by simp
  then show ?case
    by (simp add: getBoosted_reachable [OF Cons.prems] Let_def)
qed

lemma boostParticles_reachable_snd:
  "reachable st \<Longrightarrow> reachable (snd (boostParticles st ps))"
  by (simp add: boostParticles_reachable statics_ready_reachable)

text \<open>
  Claim C4. In every reachable state of the statics, processing an event succeeds; the
  event has as many particle records as before and its other collections are unchanged;
  every record keeps its energy, PDG code, vertex, parents and daughters, and differs
  from the record it was in nothing but the momentum, which is now the three spatial
  components of \<^verbatim>\<open>getBoosted\<close> of its former momentum and energy.
\<close>

theorem boostEvent_frame:
  assumes "reachable st"
  shows "\<exists>evt'. fst (boostEvent st evt) = Inr evt'
           \<and> length (mcparticles evt') = length (mcparticles evt)
           \<and> other_collections evt' = other_collections evt
           \<and> (\<forall>i < length (mcparticles evt).
                 energy (mcparticles evt' ! i) = energy (mcparticles evt ! i)
               \<and> pdg (mcparticles evt' ! i) = pdg (mcparticles evt ! i)
               \<and> vertex (mcparticles evt' ! i) = vertex (mcparticles evt ! i)
               \<and> parents (mcparticles evt' ! i) = parents (mcparticles evt ! i)
               \<and> daughters (mcparticles evt' ! i) = daughters (mcparticles evt ! i)
               \<and> mcparticles evt' ! i = (mcparticles evt ! i)\<lparr>momentum := momentum (mcparticles evt' ! i)\<rparr>
               \<and> (\<exists>boosted.
                     fst (getBoosted st
                            (PxPyPzEVector (getMomentum (mcparticles evt ! i) 0)
                               (getMomentum (mcparticles evt ! i) 1)
                               (getMomentum (mcparticles evt ! i) 2)
                               (getEnergy (mcparticles evt ! i)))) = Inr boosted
                   \<and> momentum (mcparticles evt' ! i) = (Px boosted, Py boosted, Pz boosted)))"
  by (simp add: boostEvent_def boostParticles_reachable [OF assms] getBoosted_reachable [OF assms]
      setMomentum_def)

text \<open>The theorem of claim C4 on an event of two particles and one other collection.\<close>

theorem boostEvent_frame_witness:
  "reachable statics_init
   \<and> (\<exists>evt'.
        fst (boostEvent statics_init
              \<lparr>mcparticles =
                 [\<lparr>momentum = (0, 0, 100), energy = 100.5, pdg = 11, vertex = (0, 0, 0),
                   parents = [], daughters = [1]\<rparr>,
                  \<lparr>momentum = (1, 2, 3), energy = 4, pdg = 22, vertex = (0, 0, 1),
                   parents = [0], daughters = []\<rparr>],
               other_collections = [(''SimTrackerHit'', [7])]\<rparr>) = Inr evt'
      \<and> length (mcparticles evt') = 2
      \<and> other_collections evt' = [(''SimTrackerHit'', [7])]
      \<and> energy (mcparticles evt' ! 1) = 4
      \<and> pdg (mcparticles evt' ! 1) = 22
      \<and> parents (mcparticles evt' ! 1) = [0]
      \<and> fst (momentum (mcparticles evt' ! 1)) = 1
      \<and> fst (snd (momentum (mcparticles evt' ! 1))) = 2)"
proof -
  let ?evt = "\<lparr>mcparticles =
                 [\<lparr>momentum = (0, 0, 100), energy = 100.5, pdg = 11, vertex = (0, 0, 0),
                   parents = [], daughters = [1]\<rparr>,
                  \<lparr>momentum = (1, 2, 3), energy = 4, pdg = 22, vertex = (0, 0, 1),
                   parents = [0], daughters = []\<rparr>],
               other_collections = [(''SimTrackerHit'', [7])]\<rparr>"
  from boostEvent_frame [OF reachable.start, of ?evt]
  obtain evt' where r: "fst (boostEvent statics_init ?evt) = Inr evt'"
    and l: "length (mcparticles evt') = length (mcparticles ?evt)"
    and c: "other_collections evt' = other_collections ?evt"
    and f: "\<forall>i < length (mcparticles ?evt).
                 energy (mcparticles evt' ! i) = energy (mcparticles ?evt ! i)
               \<and> pdg (mcparticles evt' ! i) = pdg (mcparticles ?evt ! i)
               \<and> vertex (mcparticles evt' ! i) = vertex (mcparticles ?evt ! i)
               \<and> parents (mcparticles evt' ! i) = parents (mcparticles ?evt ! i)
               \<and> daughters (mcparticles evt' ! i) = daughters (mcparticles ?evt ! i)
               \<and> mcparticles evt' ! i = (mcparticles ?evt ! i)\<lparr>momentum := momentum (mcparticles evt' ! i)\<rparr>
               \<and> (\<exists>boosted.
                     fst (getBoosted statics_init
                            (PxPyPzEVector (getMomentum (mcparticles ?evt ! i) 0)
                               (getMomentum (mcparticles ?evt ! i) 1)
                               (getMomentum (mcparticles ?evt ! i) 2)
                               (getEnergy (mcparticles ?evt ! i)))) = Inr boosted
                   \<and> momentum (mcparticles evt' ! i) = (Px boosted, Py boosted, Pz boosted))"
    by blast
  have "(1::nat) < length (mcparticles ?evt)"
    by simp
  with f have g: "energy (mcparticles evt' ! 1) = 4" "pdg (mcparticles evt' ! 1) = 22"
    "parents (mcparticles evt' ! 1) = [0]"
    "\<exists>boosted.
        fst (getBoosted statics_init
               (PxPyPzEVector (getMomentum (mcparticles ?evt ! 1) 0)
                  (getMomentum (mcparticles ?evt ! 1) 1)
                  (getMomentum (mcparticles ?evt ! 1) 2)
                  (getEnergy (mcparticles ?evt ! 1)))) = Inr boosted
      \<and> momentum (mcparticles evt' ! 1) = (Px boosted, Py boosted, Pz boosted)"
    by auto
  from g(4) have m: "fst (momentum (mcparticles evt' ! 1)) = 1"
    "fst (snd (momentum (mcparticles evt' ! 1))) = 2"
    by (auto simp: getBoosted_init cached_apply getMomentum_def PxPyPzEVector_def)
  from r l c g(1-3) m reachable.start show ?thesis
    by simp
qed

section \<open>Properties of main\<close>

lemma opened_inputs_append: "opened_inputs (xs @ ys) = opened_inputs xs @ opened_inputs ys"
  by (induction xs rule: opened_inputs.induct) simp_all

lemma opened_outputs_append: "opened_outputs (xs @ ys) = opened_outputs xs @ opened_outputs ys"
  by (induction xs rule: opened_outputs.induct) simp_all

lemma event_loop_opened:
  "event_loop lib out records n w = (r, w') \<Longrightarrow>
     opened_inputs (effects w') = opened_inputs (effects w)
   \<and> opened_outputs (effects w') = opened_outputs (effects w)"
proof (induction lib out records n w arbitrary: r w' rule: event_loop.induct)
  case (1 lib out nEvtRead w)
  then show ?case
    by (auto simp: emit_def opened_inputs_append opened_outputs_append)
next
  case (2 lib out e rest nEvtRead w)
  then show ?case
    by (auto simp: emit_def opened_inputs_append opened_outputs_append)
next
  case (3 lib out evt rest nEvtRead w)
  show ?case
  proof (cases "boostEvent (statics (emit [ReadNextEvent, PrintEvent nEvtRead] w)) evt")
    case (Pair res st)
    show ?thesis
    proof (cases res)
      case (Inl e)
      with Pair "3.prems" show ?thesis
        by (auto simp: emit_def opened_inputs_append opened_outputs_append)
    next
      case (Inr evt')
      let ?w1 = "emit [ReadNextEvent, PrintEvent nEvtRead] w"
      let ?w2 = "emit [WriteEvent out] (?w1\<lparr>statics := st\<rparr>)"
      show ?thesis
      proof (cases "writer_writeEvent lib (store ?w2) out evt'")
        case (Inl e)
        with Pair Inr "3.prems" show ?thesis
          by (auto simp: emit_def opened_inputs_append opened_outputs_append)
      next
        case wr: (Inr s)
        have "event_loop lib out rest (nEvtRead + 1) (?w2\<lparr>store := s\<rparr>) = (r, w')"
          using Pair Inr wr "3.prems" by simp
        from "3.IH" [OF refl Pair [symmetric] Inr refl wr this]
        show ?thesis
          by (simp add: emit_def opened_inputs_append opened_outputs_append)
      qed
    qed
  qed
qed

lemma boostFile_opened:
  assumes "boostFile lib fname w = (Inr u, w')"
  shows "opened_inputs (effects w') = opened_inputs (effects w) @ [fname]
       \<and> opened_outputs (effects w') = opened_outputs (effects w) @ [outpath fname]"
proof (cases "reader_open lib (store (emit [ReaderOpen fname] w)) fname")
  case (Inl e)
  with assms show ?thesis by (simp add: boostFile_def)
next
  case rd: (Inr records)
  let ?w3 = "emit [PrintWillWrite (outpath fname), WriterOpen (outpath fname)]
               (emit [PrintNEvents (int (length records))] (emit [ReaderOpen fname] w))"
  show ?thesis
  proof (cases "writer_open lib (store ?w3) (outpath fname)")
    case (Inl e)
    with rd assms show ?thesis by (simp add: boostFile_def Let_def)
  next
    case wo: (Inr s)
    have "event_loop lib (outpath fname) records 0 (?w3\<lparr>store := s\<rparr>) = (Inr u, w')"
      using assms rd wo by (simp add: boostFile_def Let_def)
    from event_loop_opened [OF this] show ?thesis
      by (simp add: emit_def opened_inputs_append opened_outputs_append)
  qed
qed

lemma boostFiles_opened:
  "boostFiles lib fnames w = (Inr u, w') \<Longrightarrow>
     opened_inputs (effects w') = opened_inputs (effects w) @ fnames
   \<and> opened_outputs (effects w') = opened_outputs (effects w) @ map outpath fnames"
proof (induction fnames arbitrary: w)
  case Nil
  then show ?case by simp
next
  case (Cons f fs)
  obtain r1 w1 where b: "boostFile lib f w = (r1, w1)"
    by (cases "boostFile lib f w")
  show ?case
  proof (cases r1)
    case (Inl e)
    with b Cons.prems show ?thesis by simp
  next
    case (Inr u1)
    with b Cons.prems have "boostFiles lib fs w1 = (Inr u, w')" by simp
    from Cons.IH [OF this] boostFile_opened [OF b [unfolded Inr]]
    show ?thesis by simp
  qed
qed

text \<open>
  Claim C7. With fewer than two entries in the argument vector, \<^verbatim>\<open>main\<close> prints the
  usage line and exits with status 1, whatever the library does: the usage line is the
  only effect, no file is opened for reading or for writing, and the store of files is
  unchanged.
\<close>

theorem main_usage:
  assumes "length argv < 2"
  shows "main lib argv s = (Exit 1, [PrintUsage], s)
       \<and> opened_inputs (fst (snd (main lib argv s))) = []
       \<and> opened_outputs (fst (snd (main lib argv s))) = []"
  using assms by (simp add: main_def)

text \<open>The theorem of claim C7 on the argument vector that holds the program name only.\<close>

theorem main_usage_witness:
  "length [''boostLCIO''] < 2
   \<and> main lcio_files [''boostLCIO''] Map.empty = (Exit 1, [PrintUsage], Map.empty)"
  using main_usage [of "[''boostLCIO'']" lcio_files Map.empty] by simp

text \<open>
  In a reachable state of the statics, the body of the event loop gives the boosted event
  of the specification, and the loops of the program make the calls to the library one
  after the other.
\<close>

lemma boostEvent_reachable:
  assumes "reachable st"
  shows "\<exists>st'. boostEvent st evt = (Inr (boosted_event evt), st') \<and> reachable st'"
proof -
  have "map (\<lambda>p. setMomentum p
              (Px (boost_apply cached_boost (PxPyPzEVector (getMomentum p 0) (getMomentum p 1) (getMomentum p 2) (getEnergy p))),
               Py (boost_apply cached_boost (PxPyPzEVector (getMomentum p 0) (getMomentum p 1) (getMomentum p 2) (getEnergy p))),
               Pz (boost_apply cached_boost (PxPyPzEVector (getMomentum p 0) (getMomentum p 1) (getMomentum p 2) (getEnergy p)))))
          (mcparticles evt)
        = map boosted_particle (mcparticles evt)"
    by (rule map_cong)
      (auto simp: boosted_particle_def setMomentum_def getMomentum_def getEnergy_def
        split: prod.splits)
  then show ?thesis
    using assms statics_ready_reachable
    by (simp add: boostEvent_def boostParticles_reachable [OF assms] boosted_event_def)
qed

lemma event_loop_library:
  "reachable (statics w) \<Longrightarrow> library_events lib out records (store w) = Some s' \<Longrightarrow>
     \<exists>w'. event_loop lib out records n w = (Inr (), w') \<and> store w' = s' \<and> reachable (statics w')"
proof (induction records arbitrary: w n)
  case Nil
  then show ?case by (simp add: emit_def)
next
  case (Cons rcd rest)
  show ?case
  proof (cases rcd)
    case (Inl e)
    with Cons.prems show ?thesis by simp
  next
    case (Inr evt)
    let ?w1 = "emit [ReadNextEvent, PrintEvent n] w"
    have "reachable (statics ?w1)"
      using Cons.prems(1) by (simp add: emit_def)
    from boostEvent_reachable [OF this, of evt]
    obtain st where b: "boostEvent (statics ?w1) evt = (Inr (boosted_event evt), st)"
      and r: "reachable st"
      by (elim exE conjE)
    let ?w2 = "emit [WriteEvent out] (?w1\<lparr>statics := st\<rparr>)"
    have s2: "store ?w2 = store w"
      by (simp add: emit_def)
    show ?thesis
    proof (cases "writer_writeEvent lib (store w) out (boosted_event evt)")
      case wl: (Inl e)
      with Cons.prems Inr show ?thesis by simp
    next
      case wr: (Inr s1)
      have l: "library_events lib out rest (store (?w2\<lparr>store := s1\<rparr>)) = Some s'"
        using Cons.prems(2) Inr wr by simp
      have r2: "reachable (statics (?w2\<lparr>store := s1\<rparr>))"
        using r by (simp add: emit_def)
      from Cons.IH [OF r2 l, of "n + 1"] obtain w' where
        "event_loop lib out rest (n + 1) (?w2\<lparr>store := s1\<rparr>) = (Inr (), w')"
        "store w' = s'" "reachable (statics w')"
        by (elim exE conjE)
      then show ?thesis
        using Inr b wr s2 by (simp add: Let_def)
    qed
  qed
qed

lemma boostFile_library:
  assumes "reachable (statics w)" and "library_file lib fname (store w) = Some s'"
  shows "\<exists>w'. boostFile lib fname w = (Inr (), w') \<and> store w' = s' \<and> reachable (statics w')"
proof (cases "reader_open lib (store w) fname")
  case (Inl e)
  with assms show ?thesis by (simp add: library_file_def)
next
  case rd: (Inr records)
  show ?thesis
  proof (cases "writer_open lib (store w) (outpath fname)")
    case (Inl e)
    with assms rd show ?thesis by (simp add: library_file_def)
  next
    case wo: (Inr s1)
    let ?w3 = "emit [PrintWillWrite (outpath fname), WriterOpen (outpath fname)]
                 (emit [PrintNEvents (int (length records))] (emit [ReaderOpen fname] w))"
    have l: "library_events lib (outpath fname) records (store (?w3\<lparr>store := s1\<rparr>)) = Some s'"
      using assms(2) rd wo by (simp add: library_file_def)
    have r: "reachable (statics (?w3\<lparr>store := s1\<rparr>))"
      using assms(1) by (simp add: emit_def)
    from event_loop_library [OF r l, of 0] obtain w' where
      "event_loop lib (outpath fname) records 0 (?w3\<lparr>store := s1\<rparr>) = (Inr (), w')"
      "store w' = s'" "reachable (statics w')"
      by (elim exE conjE)
    then show ?thesis
      using rd wo by (simp add: boostFile_def Let_def emit_def)
  qed
qed

lemma boostFiles_library:
  "reachable (statics w) \<Longrightarrow> library_files lib fnames (store w) = Some s' \<Longrightarrow>
     \<exists>w'. boostFiles lib fnames w = (Inr (), w') \<and> store w' = s'"
proof (induction fnames arbitrary: w)
  case Nil
  then show ?case by simp
next
  case (Cons f fs)
  from Cons.prems(2) obtain s1 where f1: "library_file lib f (store w) = Some s1"
    and f2: "library_files lib fs s1 = Some s'"
    by (auto split: option.splits)
  from boostFile_library [OF Cons.prems(1) f1]
  obtain w1 where b: "boostFile lib f w = (Inr (), w1)" "store w1 = s1" "reachable (statics w1)"
    by (elim exE conjE)
  have "library_files lib fs (store w1) = Some s'"
    using f2 b(2) by simp
  from Cons.IH [OF b(3) this]
  obtain w' where "boostFiles lib fs w1 = (Inr (), w')" "store w' = s'"
    by (elim exE conjE)
  with b(1) show ?case by simp
qed

text \<open>
  Claim C10. When at least one input file is given and no call to the library fails on
  the given files (every input opens, every record is read, every output opens and every
  boosted event is written), \<^verbatim>\<open>main\<close> exits with status 0, whatever the library. The
  store it leaves is the one after the last of these calls; the files it opened for
  reading are the arguments after the program name, in argument order, and the files it
  opened for writing are their output paths, in the same order.
\<close>

theorem main_exit_0:
  assumes "2 \<le> length argv"
    and "library_files lib (drop 1 argv) s = Some s'"
  shows "\<exists>tr. main lib argv s = (Exit 0, tr, s')
            \<and> opened_inputs tr = drop 1 argv
            \<and> opened_outputs tr = map outpath (drop 1 argv)"
proof -
  let ?w0 = "\<lparr>statics = statics_init, effects = [], store = s\<rparr>"
  have r: "reachable (statics ?w0)"
    by (simp add: reachable.start)
  have l: "library_files lib (drop 1 argv) (store ?w0) = Some s'"
    using assms(2) by simp
  from boostFiles_library [OF r l]
  obtain w' where b: "boostFiles lib (drop 1 argv) ?w0 = (Inr (), w')"
    and s: "store w' = s'"
    by (elim exE conjE)
  from boostFiles_opened [OF b] have "opened_inputs (effects w') = drop 1 argv"
    and "opened_outputs (effects w') = map outpath (drop 1 argv)"
    by simp_all
  moreover have "main lib argv s = (Exit 0, effects w', s')"
    using assms(1) b s by (simp add: main_def)
  ultimately show ?thesis
    by blast
qed


text \<open>
  The theorem of claim C10 on two input files, the first with one event of one particle
  and the second with no event: both outputs exist afterwards, the first with the boosted
  event.
\<close>

theorem main_exit_0_witness:
  "2 \<le> length [''boostLCIO'', ''a.slcio'', ''d/b.slcio'']
   \<and> (\<exists>s'. library_files lcio_files (drop 1 [''boostLCIO'', ''a.slcio'', ''d/b.slcio''])
              [''a.slcio'' \<mapsto>
                 [\<lparr>mcparticles =
                      [\<lparr>momentum = (0, 0, 100), energy = 100.5, pdg = 11, vertex = (0, 0, 0),
                        parents = [], daughters = []\<rparr>],
                    other_collections = []\<rparr>],
               ''d/b.slcio'' \<mapsto> []] = Some s'
          \<and> s' ''a-boosted.slcio'' =
              Some [boosted_event
                      \<lparr>mcparticles =
                         [\<lparr>momentum = (0, 0, 100), energy = 100.5, pdg = 11, vertex = (0, 0, 0),
                           parents = [], daughters = []\<rparr>],
                       other_collections = []\<rparr>]
          \<and> s' ''d/b-boosted.slcio'' = Some []
          \<and> (\<exists>tr. main lcio_files [''boostLCIO'', ''a.slcio'', ''d/b.slcio'']
                     [''a.slcio'' \<mapsto>
                        [\<lparr>mcparticles =
                             [\<lparr>momentum = (0, 0, 100), energy = 100.5, pdg = 11, vertex = (0, 0, 0),
                               parents = [], daughters = []\<rparr>],
                           other_collections = []\<rparr>],
                      ''d/b.slcio'' \<mapsto> []] = (Exit 0, tr, s')
                 \<and> opened_inputs tr = [''a.slcio'', ''d/b.slcio'']
                 \<and> opened_outputs tr = [''a-boosted.slcio'', ''d/b-boosted.slcio'']))"
proof -
  let ?argv = "[''boostLCIO'', ''a.slcio'', ''d/b.slcio'']"
  let ?evt = "\<lparr>mcparticles =
                 [\<lparr>momentum = (0, 0, 100), energy = 100.5, pdg = 11, vertex = (0, 0, 0),
                   parents = [], daughters = []\<rparr>],
               other_collections = []\<rparr>"
  let ?s = "[''a.slcio'' \<mapsto> [?evt], ''d/b.slcio'' \<mapsto> []]"
  have o: "outpath ''a.slcio'' = ''a-boosted.slcio''" "outpath ''d/b.slcio'' = ''d/b-boosted.slcio''"
    by (simp_all add: path_defs)
  have "\<exists>s'. library_files lcio_files (drop 1 ?argv) ?s = Some s'
           \<and> s' ''a-boosted.slcio'' = Some [boosted_event ?evt]
           \<and> s' ''d/b-boosted.slcio'' = Some []"
    by (simp add: library_file_def lcio_files_def o)
  then obtain s' where l: "library_files lcio_files (drop 1 ?argv) ?s = Some s'"
    and a: "s' ''a-boosted.slcio'' = Some [boosted_event ?evt]"
    and b: "s' ''d/b-boosted.slcio'' = Some []"
    by (elim exE conjE)
  have n: "2 \<le> length ?argv"
    by simp
  from main_exit_0 [OF n l] obtain tr where
    "main lcio_files ?argv ?s = (Exit 0, tr, s')"
    "opened_inputs tr = drop 1 ?argv"
    "opened_outputs tr = map outpath (drop 1 ?argv)"
    by (elim exE conjE)
  with n l a b o show ?thesis
    by (intro conjI exI [of _ s'] exI [of _ tr]) simp_all
qed


text \<open>
  Conversely, when a call to the library fails on the given files, the exception ends
  the process.
\<close>

lemma event_loop_library_fails:
  "reachable (statics w) \<Longrightarrow> library_events lib out records (store w) = None \<Longrightarrow>
     \<exists>e w'. event_loop lib out records n w = (Inl e, w')"
proof (induction records arbitrary: w n)
  case Nil
  then show ?case by simp
next
  case (Cons rcd rest)
  show ?case
  proof (cases rcd)
    case (Inl e)
    then show ?thesis by simp
  next
    case (Inr evt)
    let ?w1 = "emit [ReadNextEvent, PrintEvent n] w"
    have "reachable (statics ?w1)"
      using Cons.prems(1) by (simp add: emit_def)
    from boostEvent_reachable [OF this, of evt]
    obtain st where b: "boostEvent (statics ?w1) evt = (Inr (boosted_event evt), st)"
      and r: "reachable st"
      by (elim exE conjE)
    let ?w2 = "emit [WriteEvent out] (?w1\<lparr>statics := st\<rparr>)"
    have s2: "store ?w2 = store w"
      by (simp add: emit_def)
    show ?thesis
    proof (cases "writer_writeEvent lib (store w) out (boosted_event evt)")
      case wl: (Inl e)
      then show ?thesis
        using Inr b s2 by (simp add: Let_def)
    next
      case wr: (Inr s1)
      have l: "library_events lib out rest (store (?w2\<lparr>store := s1\<rparr>)) = None"
        using Cons.prems(2) Inr wr by simp
      have r2: "reachable (statics (?w2\<lparr>store := s1\<rparr>))"
        using r by (simp add: emit_def)
      from Cons.IH [OF r2 l, of "n + 1"] show ?thesis
        using Inr b wr s2 by (simp add: Let_def)
    qed
  qed
qed

lemma boostFile_library_fails:
  assumes "reachable (statics w)" and "library_file lib fname (store w) = None"
  shows "\<exists>e w'. boostFile lib fname w = (Inl e, w')"
proof (cases "reader_open lib (store w) fname")
  case (Inl e)
  then show ?thesis by (simp add: boostFile_def emit_def)
next
  case rd: (Inr records)
  show ?thesis
  proof (cases "writer_open lib (store w) (outpath fname)")
    case (Inl e)
    with rd show ?thesis by (simp add: boostFile_def emit_def Let_def)
  next
    case wo: (Inr s1)
    let ?w3 = "emit [PrintWillWrite (outpath fname), WriterOpen (outpath fname)]
                 (emit [PrintNEvents (int (length records))] (emit [ReaderOpen fname] w))"
    have l: "library_events lib (outpath fname) records (store (?w3\<lparr>store := s1\<rparr>)) = None"
      using assms(2) rd wo by (simp add: library_file_def)
    have r: "reachable (statics (?w3\<lparr>store := s1\<rparr>))"
      using assms(1) by (simp add: emit_def)
    from event_loop_library_fails [OF r l, of 0] show ?thesis
      using rd wo by (simp add: boostFile_def Let_def emit_def)
  qed
qed

lemma boostFiles_library_fails:
  "reachable (statics w) \<Longrightarrow> library_files lib fnames (store w) = None \<Longrightarrow>
     \<exists>e w'. boostFiles lib fnames w = (Inl e, w')"
proof (induction fnames arbitrary: w)
  case Nil
  then show ?case by simp
next
  case (Cons f fs)
  show ?case
  proof (cases "library_file lib f (store w)")
    case None
    from boostFile_library_fails [OF Cons.prems(1) None] show ?thesis
      by auto
  next
    case (Some s1)
    from boostFile_library [OF Cons.prems(1) Some]
    obtain w1 where b: "boostFile lib f w = (Inr (), w1)" "store w1 = s1" "reachable (statics w1)"
      by (elim exE conjE)
    have "library_files lib fs (store w1) = None"
      using Cons.prems(2) Some b(2) by simp
    from Cons.IH [OF b(3) this] b(1) show ?thesis
      by auto
  qed
qed

lemma main_terminates_on_failure:
  assumes "2 \<le> length argv" and "library_files lib (drop 1 argv) s = None"
  shows "\<exists>e. fst (main lib argv s) = Terminate e"
proof -
  let ?w0 = "\<lparr>statics = statics_init, effects = [], store = s\<rparr>"
  have r: "reachable (statics ?w0)"
    by (simp add: reachable.start)
  have l: "library_files lib (drop 1 argv) (store ?w0) = None"
    using assms(2) by simp
  from boostFiles_library_fails [OF r l] show ?thesis
    using assms(1) by (auto simp: main_def)
qed

end
